theory Spec2Isabelle
  imports Main "HOL-Library.Product_Lexorder"
begin

section \<open>Typing templates and overload resolution (numba/typing/templates.py)\<close>

subsection \<open>Types\<close>

text \<open>
  Modelled from the spec: the module \<^verbatim>\<open>numba.types\<close>, which \<^verbatim>\<open>templates.py\<close>
  imports, is not under \<^verbatim>\<open>src/\<close>.  Following the data model of the
  specification, a type is an opaque identity with enough structure
  to test is-array and is-uniform-tuple, to read \<^verbatim>\<open>dtype\<close>, \<^verbatim>\<open>ndim\<close>,
  \<^verbatim>\<open>layout\<close> and \<^verbatim>\<open>count\<close>, and to compare for equality.  The scalar constants that
  \<^verbatim>\<open>templates.py\<close> names are constructors; \<open>Opaque\<close> stands for every other type
  token.  The layout is the Python string of the source (\<^verbatim>\<open>'C'\<close>, \<^verbatim>\<open>'F'\<close>, \<^verbatim>\<open>'A'\<close>).
  The first argument of \<open>Method\<close> and \<open>Function\<close> is the name of the template class.
\<close>

datatype ty =
    none | boolean
  | int8 | int16 | int32 | int64
  | uint8 | uint16 | uint32 | uint64
  | float32 | float64 | complex64 | complex128
  | slice2_type | slice3_type
  | range_state32_type | range_state64_type
  | range_iter32_type | range_iter64_type
  | Opaque string
  | is_UniTuple: UniTuple (dtype: ty) (count: nat)
  | UniTupleIter ty
  | is_Array: Array (dtype: ty) (ndim: nat) (layout: string)
  | Method string (this: ty)
  | Function string
  | Module string

text \<open>
  Modelled from the spec: \<^verbatim>\<open>types.intp\<close> is the platform integer, the signed integer
  as wide as a pointer.  The width of the machine is a parameter.
\<close>

definition intp :: "nat \<Rightarrow> ty" where
  "intp machine_bits = (if machine_bits = 32 then int32 else int64)"

text \<open>
  Modelled from the spec: \<^verbatim>\<open>Array.copy(dtype=None, ndim=None, layout=None)\<close> of
  \<^verbatim>\<open>numba.types\<close> builds an array type in which the given fields are replaced.
\<close>

definition copy :: "ty \<Rightarrow> ty option \<Rightarrow> nat option \<Rightarrow> string option \<Rightarrow> ty" where
  "copy ary dtype' ndim' layout' =
     Array (case dtype' of None \<Rightarrow> dtype ary | Some d \<Rightarrow> d)
           (case ndim' of None \<Rightarrow> ndim ary | Some n \<Rightarrow> n)
           (case layout' of None \<Rightarrow> layout ary | Some l \<Rightarrow> l)"

subsection \<open>Errors\<close>

text \<open>
  The key of a function template is a string such as \<^verbatim>\<open>"getitem"\<close>, a type token such
  as \<^verbatim>\<open>types.range_type\<close>, or a function object such as \<^verbatim>\<open>numpy.add\<close>.
\<close>

datatype key = OpKey string | TypeKey ty | ValueKey string

record Signature =
  return_type :: ty
  args :: "ty list"
  recvr :: "ty option"

text \<open>
  Every \<^verbatim>\<open>raise\<close>, failed \<^verbatim>\<open>assert\<close> and failed unpacking of the source is a value.
  \<open>Unreachable\<close> is \<^verbatim>\<open>Exception("unreachable", by)\<close> of the resolver (with the verdict)
  and \<^verbatim>\<open>Exception("unreachable")\<close> of \<^verbatim>\<open>GetItemArray.generic\<close> (without).
  \<open>AmbiguousOverload\<close> is the \<^verbatim>\<open>TypeError\<close> of the resolver; it carries the key, the
  actual argument types and the candidates whose renderings \<^verbatim>\<open>str(case)\<close> the message
  joins, in the order of the message.
\<close>

datatype error =
    AssertionError
  | ValueError
  | Unreachable "string option"
  | AmbiguousOverload key "ty list" "Signature list"
  | NotImplementedError ty string

subsection \<open>Signature\<close>

text \<open>\<^verbatim>\<open>Signature.__hash__\<close>: \<^verbatim>\<open>hash(self.args)\<close>; the hash of tuples is a parameter.\<close>

definition Signature_hash :: "(ty list \<Rightarrow> int) \<Rightarrow> Signature \<Rightarrow> int" where
  "Signature_hash hash s = hash (args s)"

text \<open>\<^verbatim>\<open>Signature.__eq__\<close>, both operands being signatures.\<close>

definition Signature_eq :: "Signature \<Rightarrow> Signature \<Rightarrow> bool" where
  "Signature_eq s other \<longleftrightarrow> args s = args other \<and> recvr s = recvr other"

definition Signature_ne :: "Signature \<Rightarrow> Signature \<Rightarrow> bool" where
  "Signature_ne s other \<longleftrightarrow> \<not> Signature_eq s other"

definition is_method :: "Signature \<Rightarrow> bool" where
  "is_method s \<longleftrightarrow> recvr s \<noteq> None"

text \<open>\<^verbatim>\<open>signature(return_type, *args, recvr=None)\<close>.\<close>

definition signature :: "ty \<Rightarrow> ty list \<Rightarrow> ty option \<Rightarrow> Signature" where
  "signature rt argtys r = \<lparr>return_type = rt, args = argtys, recvr = r\<rparr>"

text \<open>
  A Python set of signatures, as the list of its distinct members: adding a member
  that has the hash of a present member and compares equal to it leaves the set as
  it is.
\<close>

definition set_add :: "(ty list \<Rightarrow> int) \<Rightarrow> Signature list \<Rightarrow> Signature \<Rightarrow> Signature list" where
  "set_add hash members s =
     (if list_ex (\<lambda>m. Signature_hash hash m = Signature_hash hash s \<and> Signature_eq m s) members
      then members else members @ [s])"

subsection \<open>Rating\<close>

record Rating =
  promote :: int
  safe_convert :: int
  unsafe_convert :: int

definition Rating_init :: Rating where
  "Rating_init = \<lparr>promote = 0, safe_convert = 0, unsafe_convert = 0\<rparr>"

definition astuple :: "Rating \<Rightarrow> int \<times> int \<times> int" where
  "astuple rate = (unsafe_convert rate, safe_convert rate, promote rate)"

subsection \<open>The resolver\<close>

text \<open>
  \<^verbatim>\<open>context.type_compatibility(actual, formal)\<close> is a parameter \<open>tc\<close>: it returns
  \<^verbatim>\<open>None\<close> or a Python string.  Keyword arguments are a list of named types.

  The inner loop of \<^verbatim>\<open>_resolve_overload\<close> over \<^verbatim>\<open>zip(args, case.args)\<close>:
  \<open>Inr None\<close> is the \<^verbatim>\<open>break\<close>, \<open>Inr (Some rate)\<close> the \<^verbatim>\<open>else\<close> of the loop, reached
  when the pairs are exhausted.
\<close>

type_synonym compat = "ty \<Rightarrow> ty \<Rightarrow> string option"
type_synonym kwargs = "(string \<times> ty) list"

fun rate_args :: "compat \<Rightarrow> (ty \<times> ty) list \<Rightarrow> Rating \<Rightarrow> error + Rating option" where
  "rate_args tc [] rate = Inr (Some rate)"
| "rate_args tc ((actual, formal) # rest) rate =
     (case tc actual formal of
        None \<Rightarrow> Inr None
      | Some verdict \<Rightarrow>
          if verdict = ''promote'' then
            rate_args tc rest (rate\<lparr>promote := promote rate + 1\<rparr>)
          else if verdict = ''safe'' then
            rate_args tc rest (rate\<lparr>safe_convert := safe_convert rate + 1\<rparr>)
          else if verdict = ''unsafe'' then
            rate_args tc rest (rate\<lparr>unsafe_convert := unsafe_convert rate + 1\<rparr>)
          else if verdict = ''exact'' then
            rate_args tc rest rate
          else Inl (Unreachable (Some verdict)))"

text \<open>
  The outer loop over \<^verbatim>\<open>cases\<close>, with the lists \<^verbatim>\<open>ratings\<close> and \<^verbatim>\<open>candids\<close> it
  appends to.
\<close>

fun rate_cases ::
  "compat \<Rightarrow> ty list \<Rightarrow> Signature list \<Rightarrow> (int \<times> int \<times> int) list \<times> Signature list \<Rightarrow>
     error + ((int \<times> int \<times> int) list \<times> Signature list)" where
  "rate_cases tc argtys [] (ratings, candids) = Inr (ratings, candids)"
| "rate_cases tc argtys (c # cases) (ratings, candids) =
     (if length argtys = length (args c) then
        (case rate_args tc (zip argtys (args c)) Rating_init of
           Inl e \<Rightarrow> Inl e
         | Inr None \<Rightarrow> rate_cases tc argtys cases (ratings, candids)
         | Inr (Some rate) \<Rightarrow>
             rate_cases tc argtys cases (ratings @ [astuple rate], candids @ [c]))
      else rate_cases tc argtys cases (ratings, candids))"

text \<open>
  \<^verbatim>\<open>sorted(zip(ratings, candids), key=lambda i: i[0])\<close>: Python's sort is stable and
  ascending, tuples of integers compare lexicographically; \<open>sort_key\<close> is the stable
  insertion sort, on the lexicographic order of the triples.
\<close>

definition ordered_of ::
  "(int \<times> int \<times> int) list \<Rightarrow> Signature list \<Rightarrow> ((int \<times> int \<times> int) \<times> Signature) list" where
  "ordered_of ratings candids = sort_key fst (zip ratings candids)"

text \<open>The part of \<^verbatim>\<open>_resolve_overload\<close> after the rating: find the best case.\<close>

fun find_best ::
  "key \<Rightarrow> ty list \<Rightarrow> ((int \<times> int \<times> int) \<times> Signature) list \<Rightarrow> error + Signature option" where
  "find_best k argtys [] = Inr None"
| "find_best k argtys [(first, case1)] = Inr (Some case1)"
| "find_best k argtys ((first, case1) # (second, case2) # rest) =
     (if first = second then
        Inl (AmbiguousOverload k argtys
               (map snd (filter (\<lambda>(rate, c). rate = first)
                                ((first, case1) # (second, case2) # rest))))
      else Inr (Some case1))"

definition resolve_overload ::
  "key \<Rightarrow> compat \<Rightarrow> Signature list \<Rightarrow> ty list \<Rightarrow> kwargs \<Rightarrow> error + Signature option" where
  "resolve_overload k tc cases argtys kws =
     (if kws \<noteq> [] then Inl AssertionError
      else case rate_cases tc argtys cases ([], []) of
             Inl e \<Rightarrow> Inl e
           | Inr (ratings, candids) \<Rightarrow> find_best k argtys (ordered_of ratings candids))"

definition select :: "key \<Rightarrow> compat \<Rightarrow> Signature list \<Rightarrow> ty list \<Rightarrow> kwargs \<Rightarrow> error + Signature option" where
  "select k tc cases argtys kws = resolve_overload k tc cases argtys kws"

text \<open>
  \<^verbatim>\<open>AbstractTemplate.apply\<close>, the \<^verbatim>\<open>generic\<close> of the subclass being a parameter.  A
  signature is always true in \<^verbatim>\<open>if sig:\<close> (the class defines neither \<^verbatim>\<open>__len__\<close> nor
  a truth value).
\<close>

definition AbstractTemplate_apply ::
  "key \<Rightarrow> compat \<Rightarrow> (ty list \<Rightarrow> kwargs \<Rightarrow> error + Signature option) \<Rightarrow> ty list \<Rightarrow> kwargs \<Rightarrow>
     error + Signature option" where
  "AbstractTemplate_apply k tc generic argtys kws =
     (case generic argtys kws of
        Inl e \<Rightarrow> Inl e
      | Inr None \<Rightarrow> Inr None
      | Inr (Some sig) \<Rightarrow> select k tc [sig] argtys kws)"

text \<open>\<^verbatim>\<open>ConcreteTemplate.apply\<close>: \<^verbatim>\<open>assert cases\<close> fails on an empty list.\<close>

definition ConcreteTemplate_apply ::
  "key \<Rightarrow> compat \<Rightarrow> Signature list \<Rightarrow> ty list \<Rightarrow> kwargs \<Rightarrow> error + Signature option" where
  "ConcreteTemplate_apply k tc cases argtys kws =
     (if cases = [] then Inl AssertionError else select k tc cases argtys kws)"

subsection \<open>The builtin catalogue\<close>

text \<open>The case list of the concrete template \<^verbatim>\<open>Range\<close>.\<close>

definition Range_cases :: "Signature list" where
  "Range_cases =
     [signature range_state32_type [int32] None,
      signature range_state32_type [int32, int32, int32] None,
      signature range_state64_type [int64] None,
      signature range_state64_type [int64, int64] None,
      signature range_state64_type [int64, int64, int64] None]"

definition normalize_index :: "nat \<Rightarrow> ty \<Rightarrow> ty" where
  "normalize_index machine_bits index =
     (if is_UniTuple index then UniTuple (intp machine_bits) (count index)
      else if index = slice3_type then slice3_type
      else if index = slice2_type then slice2_type
      else intp machine_bits)"

text \<open>
  \<^verbatim>\<open>GetItemArray.generic\<close>.  \<^verbatim>\<open>ary, idx = args\<close> raises \<^verbatim>\<open>ValueError\<close> unless there
  are two arguments; \<^verbatim>\<open>len(idx)\<close> of a uniform tuple is its \<^verbatim>\<open>count\<close>.
\<close>

definition GetItemArray_generic :: "nat \<Rightarrow> ty list \<Rightarrow> kwargs \<Rightarrow> error + Signature option" where
  "GetItemArray_generic machine_bits argtys kws =
     (if kws \<noteq> [] then Inl AssertionError
      else case argtys of
        [ary, idx0] \<Rightarrow>
          if \<not> is_Array ary then Inr None
          else
            let idx = normalize_index machine_bits idx0 in
            if idx = slice2_type \<or> idx = slice3_type then
              Inr (Some (signature (copy ary None None (Some ''A'')) [ary, idx] None))
            else if is_UniTuple idx then
              if ndim ary > count idx then Inr None
              else if ndim ary < count idx then Inr None
              else Inr (Some (signature (dtype ary) [ary, idx] None))
            else if idx = intp machine_bits then
              if ndim ary \<noteq> 1 then Inr None
              else Inr (Some (signature (dtype ary) [ary, idx] None))
            else Inl (Unreachable None)
      | _ \<Rightarrow> Inl ValueError)"

text \<open>
  \<^verbatim>\<open>ArrayAttribute\<close>: \<^verbatim>\<open>AttributeTemplate.resolve\<close> looks the method
  \<^verbatim>\<open>resolve_<attr>\<close> up; the class has \<^verbatim>\<open>resolve_shape\<close> and \<^verbatim>\<open>resolve_flatten\<close>.
\<close>

definition resolve_shape :: "nat \<Rightarrow> ty \<Rightarrow> ty" where
  "resolve_shape machine_bits ary = UniTuple (intp machine_bits) (ndim ary)"

definition resolve_flatten :: "ty \<Rightarrow> ty" where
  "resolve_flatten ary = Method ''Array_flatten'' ary"

definition ArrayAttribute_resolve :: "nat \<Rightarrow> ty \<Rightarrow> string \<Rightarrow> error + ty" where
  "ArrayAttribute_resolve machine_bits v attr =
     (if attr = ''shape'' then Inr (resolve_shape machine_bits v)
      else if attr = ''flatten'' then Inr (resolve_flatten v)
      else Inl (NotImplementedError v attr))"

text \<open>
  \<^verbatim>\<open>Array_flatten.generic\<close>; \<^verbatim>\<open>self.this\<close>, the receiver the method is bound to, is
  the first parameter.
\<close>

definition Array_flatten_generic :: "ty \<Rightarrow> ty list \<Rightarrow> kwargs \<Rightarrow> error + Signature option" where
  "Array_flatten_generic this_ary argtys kws =
     (if argtys \<noteq> [] then Inl AssertionError
      else if kws \<noteq> [] then Inl AssertionError
      else if layout this_ary = ''C'' then
        Inr (Some (signature (copy this_ary None (Some 1) None) [] (Some this_ary)))
      else Inr None)"

text \<open>\<^verbatim>\<open>Numpy_binary_ufunc.generic\<close>; \<^verbatim>\<open>[vx, wy, out] = args\<close> needs three arguments.\<close>

definition Numpy_binary_ufunc_generic :: "ty list \<Rightarrow> kwargs \<Rightarrow> error + Signature option" where
  "Numpy_binary_ufunc_generic argtys kws =
     (if kws \<noteq> [] then Inl AssertionError
      else case argtys of
        [vx, wy, out] \<Rightarrow>
          if is_Array vx \<and> is_Array wy \<and> is_Array out then
            if dtype vx \<noteq> dtype wy \<and> dtype vx \<noteq> dtype out then Inr None
            else Inr (Some (signature out [vx, wy, out] None))
          else Inr None
      | _ \<Rightarrow> Inl ValueError)"

text \<open>
  A small oracle for concrete scenarios: a type is compatible with itself exactly,
  \<^verbatim>\<open>int32\<close> promotes to \<^verbatim>\<open>int64\<close>, \<^verbatim>\<open>int64\<close> converts unsafely to \<^verbatim>\<open>int32\<close>, an
  integer converts safely to \<^verbatim>\<open>float64\<close>, uniform tuples are compatible when
  their lengths agree; everything else is incompatible.
\<close>

fun stub_compat :: compat where
  "stub_compat actual formal =
     (if actual = formal then Some ''exact''
      else if actual = int32 \<and> formal = int64 then Some ''promote''
      else if actual = int64 \<and> formal = int32 then Some ''unsafe''
      else if (actual = int32 \<or> actual = int64) \<and> formal = float64 then Some ''safe''
      else if is_UniTuple actual \<and> is_UniTuple formal \<and> count actual = count formal
        then Some ''safe''
      else None)"


subsection \<open>The contract of the specification\<close>

text \<open>
  The score of a candidate in the words of the specification: the numbers of
  actual/formal pairs that the oracle classifies as unsafe, safe and promote.
\<close>

definition count_verdict :: "compat \<Rightarrow> (ty \<times> ty) list \<Rightarrow> string \<Rightarrow> int" where
  "count_verdict tc pairs v = int (length (filter (\<lambda>(actual, formal). tc actual formal = Some v) pairs))"

definition score :: "compat \<Rightarrow> ty list \<Rightarrow> Signature \<Rightarrow> int \<times> int \<times> int" where
  "score tc argtys c =
     (count_verdict tc (zip argtys (args c)) ''unsafe'',
      count_verdict tc (zip argtys (args c)) ''safe'',
      count_verdict tc (zip argtys (args c)) ''promote'')"

text \<open>
  The two filters of the resolver: the arity of the candidate is the number of actual
  arguments, and the oracle deems no actual/formal pair incompatible.
\<close>

definition passes_filters :: "compat \<Rightarrow> ty list \<Rightarrow> Signature \<Rightarrow> bool" where
  "passes_filters tc argtys c \<longleftrightarrow>
     length argtys = length (args c) \<and>
     list_all (\<lambda>(actual, formal). tc actual formal \<noteq> None) (zip argtys (args c))"

text \<open>The oracle keeps to its five verdicts.\<close>

definition well_behaved :: "compat \<Rightarrow> bool" where
  "well_behaved tc \<longleftrightarrow>
     (\<forall>actual formal. tc actual formal = None \<or> tc actual formal = Some ''exact'' \<or>
        tc actual formal = Some ''promote'' \<or> tc actual formal = Some ''safe'' \<or>
        tc actual formal = Some ''unsafe'')"

section \<open>Properties\<close>

subsection \<open>Rating a candidate\<close>

text \<open>
  When the inner loop runs to its end, no pair was incompatible and the three counters
  of the rating have grown by the numbers of unsafe, safe and promote verdicts.
\<close>

lemma rate_args_Some:
  "rate_args tc ps rate = Inr (Some r) \<Longrightarrow>
     list_all (\<lambda>(actual, formal). tc actual formal \<noteq> None) ps \<and>
     unsafe_convert r = unsafe_convert rate + count_verdict tc ps ''unsafe'' \<and>
     safe_convert r = safe_convert rate + count_verdict tc ps ''safe'' \<and>
     promote r = promote rate + count_verdict tc ps ''promote''"
proof (induction ps arbitrary: rate)
  case Nil
  then show ?case by (simp add: count_verdict_def)
next
  case (Cons p ps)
  obtain actual formal where p: "p = (actual, formal)" by (cases p)
  from Cons.prems p obtain verdict where v: "tc actual formal = Some verdict"
    by (cases "tc actual formal") auto
  from Cons.prems p v show ?case
    by (auto simp: count_verdict_def split: if_splits dest!: Cons.IH)
qed

lemma rate_args_None:
  "rate_args tc ps rate = Inr None \<Longrightarrow> \<not> list_all (\<lambda>(actual, formal). tc actual formal \<noteq> None) ps"
proof (induction ps arbitrary: rate)
  case Nil
  then show ?case by simp
next
  case (Cons p ps)
  obtain actual formal where p: "p = (actual, formal)" by (cases p)
  from Cons.prems p show ?case
    by (cases "tc actual formal") (auto split: if_splits dest!: Cons.IH)
qed

lemma rate_args_well_behaved:
  "well_behaved tc \<Longrightarrow> \<exists>r. rate_args tc ps rate = Inr r"
proof (induction ps arbitrary: rate)
  case Nil
  then show ?case by simp
next
  case (Cons p ps)
  obtain actual formal where p: "p = (actual, formal)" by (cases p)
  from Cons.prems have "tc actual formal = None \<or> tc actual formal = Some ''exact'' \<or>
        tc actual formal = Some ''promote'' \<or> tc actual formal = Some ''safe'' \<or>
        tc actual formal = Some ''unsafe''"
    unfolding well_behaved_def by blast
  with p Cons.IH[OF Cons.prems] show ?case
    by (elim disjE) simp_all
qed

lemma rate_args_score:
  assumes "rate_args tc (zip argtys (args c)) Rating_init = Inr (Some r)"
  shows "astuple r = score tc argtys c"
  using rate_args_Some[OF assms] by (simp add: astuple_def score_def Rating_init_def)

lemma rate_cases_acc:
  "rate_cases tc argtys cases (rs, cs) = Inr (ratings, candids) \<Longrightarrow>
     candids = cs @ filter (passes_filters tc argtys) cases \<and>
     ratings = rs @ map (score tc argtys) (filter (passes_filters tc argtys) cases)"
proof (induction cases arbitrary: rs cs)
  case Nil
  then show ?case by simp
next
  case (Cons c cases)
  show ?case
  proof (cases "length argtys = length (args c)")
    case False
    with Cons.prems Cons.IH[of rs cs] show ?thesis by (simp add: passes_filters_def)
  next
    case True
    note len = this
    show ?thesis
    proof (cases "rate_args tc (zip argtys (args c)) Rating_init")
      case (Inl e)
      with Cons.prems len show ?thesis by simp
    next
      case (Inr ro)
      show ?thesis
      proof (cases ro)
        case None
        with Inr rate_args_None[of tc "zip argtys (args c)" Rating_init]
        have "\<not> passes_filters tc argtys c" by (simp add: passes_filters_def)
        with Cons.prems len Inr None Cons.IH[of rs cs] show ?thesis by simp
      next
        case (Some r)
        with Inr rate_args_Some[of tc "zip argtys (args c)" Rating_init r] len
        have pf: "passes_filters tc argtys c" by (simp add: passes_filters_def)
        from Inr Some have sc: "astuple r = score tc argtys c" by (simp add: rate_args_score)
        from Cons.prems len Inr Some
        have "rate_cases tc argtys cases (rs @ [astuple r], cs @ [c]) = Inr (ratings, candids)"
          by simp
        from Cons.IH[OF this] pf sc show ?thesis by simp
      qed
    qed
  qed
qed

lemma rate_cases_well_behaved:
  "well_behaved tc \<Longrightarrow> \<exists>r. rate_cases tc argtys cases acc = Inr r"
proof (induction cases arbitrary: acc)
  case Nil
  then show ?case by (cases acc) simp
next
  case (Cons c cases)
  obtain rs cs where acc: "acc = (rs, cs)" by (cases acc)
  from rate_args_well_behaved[OF Cons.prems, of "zip argtys (args c)" Rating_init]
  obtain ro where ro: "rate_args tc (zip argtys (args c)) Rating_init = Inr ro" by blast
  show ?case using acc ro Cons.IH[OF Cons.prems]
    by (cases ro) simp_all
qed

subsection \<open>Ordering the candidates\<close>

lemma rate_cases_survivors:
  assumes "rate_cases tc argtys cases ([], []) = Inr (ratings, candids)"
  shows "candids = filter (passes_filters tc argtys) cases"
    and "ratings = map (score tc argtys) candids"
    and "length ratings = length candids"
    and "map fst (zip ratings candids) = ratings"
    and "map snd (zip ratings candids) = candids"
  using rate_cases_acc[OF assms] by simp_all

lemma tied_filter_eq:
  "filter (\<lambda>(rate, c). rate = k) xs = filter (\<lambda>y. fst y = k) xs"
  by (induction xs) auto

lemma ordered_of_props:
  "sorted (map fst (ordered_of ratings candids))"
  "set (ordered_of ratings candids) = set (zip ratings candids)"
  "length (ordered_of ratings candids) = length (zip ratings candids)"
  "filter (\<lambda>(rate, c). rate = k) (ordered_of ratings candids) =
     filter (\<lambda>(rate, c). rate = k) (zip ratings candids)"
  by (simp_all add: ordered_of_def tied_filter_eq sort_key_stable)

lemma ordered_position:
  assumes "i < length (ordered_of ratings candids)" "j < length (ordered_of ratings candids)"
    and "fst (ordered_of ratings candids ! i) < fst (ordered_of ratings candids ! j)"
  shows "i < j"
proof (rule ccontr)
  assume "\<not> i < j"
  then have "j \<le> i" by simp
  with assms(1) have "map fst (ordered_of ratings candids) ! j \<le> map fst (ordered_of ratings candids) ! i"
    using ordered_of_props(1)[of ratings candids] by (intro sorted_nth_mono) simp_all
  with assms show False by simp
qed

subsection \<open>Rank priority\<close>

text \<open>
  C1.  In one overload resolution, let \<open>A\<close> and \<open>B\<close> be rated candidates, at the
  positions \<open>i\<close> and \<open>j\<close> of the sorted list, with the scores \<open>(ua, sa, pa)\<close> and
  \<open>(ub, sb, pb)\<close>.  If \<open>A\<close> has fewer unsafe conversions than \<open>B\<close>, or as many and
  fewer safe conversions, or as many of both and fewer promotions, then \<open>A\<close> comes
  before \<open>B\<close>: the candidates are in ascending lexicographic order of
  (unsafe_convert, safe_convert, promote).  The score of a candidate is the triple of
  the numbers of unsafe, safe and promote verdicts of its arguments.
\<close>

theorem rank_priority:
  assumes "rate_cases tc argtys cases ([], []) = Inr (ratings, candids)"
    and "i < length candids" and "j < length candids"
    and "ordered_of ratings candids ! i = ((ua, sa, pa), A)"
    and "ordered_of ratings candids ! j = ((ub, sb, pb), B)"
    and "ua < ub \<or> (ua = ub \<and> (sa < sb \<or> (sa = sb \<and> pa < pb)))"
  shows "i < j \<and> (ua, sa, pa) = score tc argtys A \<and> (ub, sb, pb) = score tc argtys B"
proof -
  have len: "length (ordered_of ratings candids) = length candids"
    using rate_cases_survivors(3)[OF assms(1)] by (simp add: ordered_of_props(3))
  have lt: "fst (ordered_of ratings candids ! i) < fst (ordered_of ratings candids ! j)"
    using assms(4,5,6) by auto
  have pos: "i < j"
    using ordered_position[of i ratings candids j] len assms(2,3) lt by simp
  have mem: "\<And>r c. (r, c) \<in> set (zip ratings candids) \<Longrightarrow> r = score tc argtys c"
    using rate_cases_survivors(2)[OF assms(1)] by (auto simp: in_set_zip)
  have "ordered_of ratings candids ! i \<in> set (zip ratings candids)"
    using len assms(2) ordered_of_props(2)[of ratings candids] nth_mem by metis
  then have a: "(ua, sa, pa) = score tc argtys A" using assms(4) mem by simp
  have "ordered_of ratings candids ! j \<in> set (zip ratings candids)"
    using len assms(3) ordered_of_props(2)[of ratings candids] nth_mem by metis
  then have b: "(ub, sb, pb) = score tc argtys B" using assms(5) mem by simp
  from pos a b show ?thesis by simp
qed

theorem rank_priority_witness:
  "rate_cases stub_compat [int64, int32]
       [signature int32 [int32, int32] None, signature float64 [float64, float64] None,
        signature int64 [int64, int64] None] ([], []) =
     Inr ([(1, 0, 0), (0, 2, 0), (0, 0, 1)],
          [signature int32 [int32, int32] None, signature float64 [float64, float64] None,
           signature int64 [int64, int64] None])
   \<and> ordered_of [(1, 0, 0), (0, 2, 0), (0, 0, 1)]
          [signature int32 [int32, int32] None, signature float64 [float64, float64] None,
           signature int64 [int64, int64] None] ! 1 =
       ((0, 2, 0), signature float64 [float64, float64] None)
   \<and> ordered_of [(1, 0, 0), (0, 2, 0), (0, 0, 1)]
          [signature int32 [int32, int32] None, signature float64 [float64, float64] None,
           signature int64 [int64, int64] None] ! 2 =
       ((1, 0, 0), signature int32 [int32, int32] None)
   \<and> (1::nat) < length [signature int32 [int32, int32] None,
          signature float64 [float64, float64] None, signature int64 [int64, int64] None]
   \<and> (2::nat) < length [signature int32 [int32, int32] None,
          signature float64 [float64, float64] None, signature int64 [int64, int64] None]
   \<and> (1::nat) < 2
   \<and> (0, 2, 0) = score stub_compat [int64, int32] (signature float64 [float64, float64] None)
   \<and> (1, 0, 0) = score stub_compat [int64, int32] (signature int32 [int32, int32] None)"
proof -
  let ?cs = "[signature int32 [int32, int32] None, signature float64 [float64, float64] None,
        signature int64 [int64, int64] None]"
  let ?rs = "[(1, 0, 0), (0, 2, 0), (0, 0, 1)] :: (int \<times> int \<times> int) list"
  have h1: "rate_cases stub_compat [int64, int32] ?cs ([], []) = Inr (?rs, ?cs)"
    by (simp add: signature_def Rating_init_def astuple_def)
  have h2: "ordered_of ?rs ?cs ! 1 = ((0, 2, 0), signature float64 [float64, float64] None)"
    by (simp add: ordered_of_def)
  have h3: "ordered_of ?rs ?cs ! 2 = ((1, 0, 0), signature int32 [int32, int32] None)"
    by (simp add: ordered_of_def)
  have h4: "(0::int) < 1 \<or> ((0::int) = 1 \<and> ((2::int) < 0 \<or> ((2::int) = 0 \<and> (0::int) < 0)))"
    by simp
  have "(1::nat) < 2 \<and>
        (0, 2, 0) = score stub_compat [int64, int32] (signature float64 [float64, float64] None) \<and>
        (1, 0, 0) = score stub_compat [int64, int32] (signature int32 [int32, int32] None)"
    using rank_priority[OF h1 _ _ h2 h3 h4] by simp
  with h1 h2 h3 show ?thesis by simp
qed

subsection \<open>Ambiguity\<close>

text \<open>
  C2.  When two or more candidates survive the rating, the sorted list starts with a
  best and a second-best candidate; the score of the best is the least score.  If the
  two have the same score, the resolver raises the ambiguity error, which lists every
  surviving candidate whose score is the best score, and returns no candidate.  If
  they differ, the best score is unique among the survivors and the resolver returns
  the candidate that has it.
\<close>

theorem resolve_overload_ambiguity:
  assumes "rate_cases tc argtys cases ([], []) = Inr (ratings, candids)"
    and "2 \<le> length candids"
  shows "\<exists>best second rest.
      ordered_of ratings candids = best # second # rest \<and>
      fst best = Min (set ratings) \<and> fst best \<le> fst second \<and>
      (\<forall>x \<in> set rest. fst second \<le> fst x) \<and>
      (fst best = fst second \<longrightarrow>
         resolve_overload k tc cases argtys [] =
           Inl (AmbiguousOverload k argtys
                  (map snd (filter (\<lambda>(rate, c). rate = fst best) (zip ratings candids))))) \<and>
      (fst best \<noteq> fst second \<longrightarrow>
         resolve_overload k tc cases argtys [] = Inr (Some (snd best)) \<and>
         filter (\<lambda>(rate, c). rate = Min (set ratings)) (zip ratings candids) = [best])"
proof -
  let ?ord = "ordered_of ratings candids"
  have len: "length ?ord = length candids"
    using rate_cases_survivors(3)[OF assms(1)] by (simp add: ordered_of_props(3))
  with assms(2) obtain best second rest where ord: "?ord = best # second # rest"
    by (cases ?ord; cases "tl ?ord") auto
  have srt: "sorted (map fst (best # second # rest))"
    using ordered_of_props(1)[of ratings candids] ord by simp
  have le12: "fst best \<le> fst second" using srt by simp
  have le2: "\<forall>x \<in> set rest. fst second \<le> fst x" using srt by simp
  have le1: "\<forall>x \<in> set (best # second # rest). fst best \<le> fst x" using srt by auto
  have "set (map fst ?ord) = set ratings"
    using rate_cases_survivors(4)[OF assms(1)] ordered_of_props(2)[of ratings candids]
    by (metis set_map)
  then have sr: "set ratings = fst ` set (best # second # rest)" using ord by simp
  have mn: "fst best = Min (set ratings)"
    unfolding sr using le1 by (intro Min_eqI[symmetric]) auto
  have res: "resolve_overload k tc cases argtys [] = find_best k argtys (best # second # rest)"
    using assms(1) ord by (simp add: resolve_overload_def)
  have tie: "fst best = fst second \<Longrightarrow>
         resolve_overload k tc cases argtys [] =
           Inl (AmbiguousOverload k argtys
                  (map snd (filter (\<lambda>(rate, c). rate = fst best) (zip ratings candids))))"
  proof -
    assume eq: "fst best = fst second"
    have "find_best k argtys (best # second # rest) =
            Inl (AmbiguousOverload k argtys
                  (map snd (filter (\<lambda>(rate, c). rate = fst best) (best # second # rest))))"
      using eq by (cases best; cases second) simp
    then show ?thesis
      using res ordered_of_props(4)[of "fst best" ratings candids] ord by simp
  qed
  have uniq: "fst best \<noteq> fst second \<Longrightarrow>
         resolve_overload k tc cases argtys [] = Inr (Some (snd best)) \<and>
         filter (\<lambda>(rate, c). rate = Min (set ratings)) (zip ratings candids) = [best]"
  proof -
    assume ne: "fst best \<noteq> fst second"
    have r: "find_best k argtys (best # second # rest) = Inr (Some (snd best))"
      using ne by (cases best; cases second) simp
    from ne le12 have lt: "fst best < fst second" by simp
    with le2 have "\<forall>x \<in> set (second # rest). fst x \<noteq> fst best" by auto
    then have "filter (\<lambda>y. fst y = fst best) (second # rest) = []"
      by (simp add: filter_empty_conv)
    then have "filter (\<lambda>(rate, c). rate = fst best) (best # second # rest) = [best]"
      unfolding tied_filter_eq by simp
    then have "filter (\<lambda>(rate, c). rate = fst best) (zip ratings candids) = [best]"
      using ordered_of_props(4)[of "fst best" ratings candids] ord by simp
    with r res mn show ?thesis by simp
  qed
  from ord mn le12 le2 tie uniq show ?thesis by blast
qed

theorem resolve_overload_ambiguity_witness:
  "rate_cases stub_compat [int32, int32]
       [signature int32 [int32, int32] None, signature int64 [int64, int64] None,
        signature int64 [int32, int32] None] ([], []) =
     Inr ([(0, 0, 0), (0, 0, 2), (0, 0, 0)],
          [signature int32 [int32, int32] None, signature int64 [int64, int64] None,
           signature int64 [int32, int32] None])
   \<and> 2 \<le> length [signature int32 [int32, int32] None, signature int64 [int64, int64] None,
           signature int64 [int32, int32] None]
   \<and> resolve_overload (OpKey ''+'') stub_compat
        [signature int32 [int32, int32] None, signature int64 [int64, int64] None,
         signature int64 [int32, int32] None] [int32, int32] [] =
       Inl (AmbiguousOverload (OpKey ''+'') [int32, int32]
             [signature int32 [int32, int32] None, signature int64 [int32, int32] None])"
proof -
  let ?cs = "[signature int32 [int32, int32] None, signature int64 [int64, int64] None,
         signature int64 [int32, int32] None]"
  let ?rs = "[(0, 0, 0), (0, 0, 2), (0, 0, 0)] :: (int \<times> int \<times> int) list"
  have h1: "rate_cases stub_compat [int32, int32] ?cs ([], []) = Inr (?rs, ?cs)"
    by (simp add: signature_def Rating_init_def astuple_def)
  have h2: "2 \<le> length ?cs" by simp
  have ord: "ordered_of ?rs ?cs =
      [((0, 0, 0), signature int32 [int32, int32] None),
       ((0, 0, 0), signature int64 [int32, int32] None),
       ((0, 0, 2), signature int64 [int64, int64] None)]"
    by (simp add: ordered_of_def)
  from resolve_overload_ambiguity[OF h1 h2, of "OpKey ''+''"] ord
  have "resolve_overload (OpKey ''+'') stub_compat ?cs [int32, int32] [] =
       Inl (AmbiguousOverload (OpKey ''+'') [int32, int32]
             [signature int32 [int32, int32] None, signature int64 [int32, int32] None])"
    by simp
  with h1 h2 show ?thesis by simp
qed

subsection \<open>The two filters\<close>

lemma rate_args_drop:
  assumes "well_behaved tc" and "\<not> list_all (\<lambda>(actual, formal). tc actual formal \<noteq> None) ps"
  shows "rate_args tc ps rate = Inr None"
proof -
  from rate_args_well_behaved[OF assms(1)] obtain ro where ro: "rate_args tc ps rate = Inr ro"
    by blast
  show ?thesis
  proof (cases ro)
    case None
    with ro show ?thesis by simp
  next
    case (Some r)
    with ro rate_args_Some[of tc ps rate r] assms(2) show ?thesis by simp
  qed
qed

lemma find_best_member:
  "find_best k argtys ord = Inr (Some c) \<Longrightarrow> c \<in> snd ` set ord"
  by (induction k argtys ord rule: find_best.induct) (auto split: if_splits)

text \<open>
  C3.  A candidate whose arity differs from the number of actual arguments is skipped
  whatever the oracle is: no argument of it is rated.  With an oracle that keeps to its
  five verdicts, a candidate that has an incompatible actual/formal pair is skipped as
  well and leaves the lists of ratings and candidates as they are.  Whenever the rating
  completes, the surviving candidates are exactly the cases that pass both filters, in
  their order, each with its score; with an oracle that keeps to its verdicts the
  rating always completes.  A candidate that the resolver returns is one of the cases
  and passes both filters.
\<close>

theorem candidate_filters:
  "(length argtys \<noteq> length (args c) \<longrightarrow>
      rate_cases tc argtys (c # cases) acc = rate_cases tc argtys cases acc)
   \<and> (well_behaved tc \<and> \<not> passes_filters tc argtys c \<longrightarrow>
      rate_cases tc argtys (c # cases) acc = rate_cases tc argtys cases acc)
   \<and> (rate_cases tc argtys cases ([], []) = Inr (ratings, candids) \<longrightarrow>
      candids = filter (passes_filters tc argtys) cases \<and>
      ratings = map (score tc argtys) candids)
   \<and> (well_behaved tc \<longrightarrow>
      (\<exists>ratings'. rate_cases tc argtys cases ([], []) =
          Inr (ratings', filter (passes_filters tc argtys) cases)))
   \<and> (resolve_overload k tc cases argtys kws = Inr (Some c') \<longrightarrow>
      c' \<in> set cases \<and> passes_filters tc argtys c')"
proof (intro conjI impI)
  assume "length argtys \<noteq> length (args c)"
  then show "rate_cases tc argtys (c # cases) acc = rate_cases tc argtys cases acc"
    by (cases acc) simp
next
  assume a: "well_behaved tc \<and> \<not> passes_filters tc argtys c"
  show "rate_cases tc argtys (c # cases) acc = rate_cases tc argtys cases acc"
  proof (cases "length argtys = length (args c)")
    case False
    then show ?thesis by (cases acc) simp
  next
    case True
    with a have "\<not> list_all (\<lambda>(actual, formal). tc actual formal \<noteq> None) (zip argtys (args c))"
      by (simp add: passes_filters_def)
    with a have "rate_args tc (zip argtys (args c)) Rating_init = Inr None"
      by (simp add: rate_args_drop)
    with True show ?thesis by (cases acc) simp
  qed
next
  assume r: "rate_cases tc argtys cases ([], []) = Inr (ratings, candids)"
  show "candids = filter (passes_filters tc argtys) cases"
    by (rule rate_cases_survivors(1)[OF r])
  show "ratings = map (score tc argtys) candids"
    by (rule rate_cases_survivors(2)[OF r])
next
  assume wb: "well_behaved tc"
  from rate_cases_well_behaved[OF wb, of argtys cases "([], [])"]
  obtain rs cs where r: "rate_cases tc argtys cases ([], []) = Inr (rs, cs)" by (metis surj_pair)
  from rate_cases_survivors(1)[OF r] r
  show "\<exists>ratings'. rate_cases tc argtys cases ([], []) =
          Inr (ratings', filter (passes_filters tc argtys) cases)" by blast
next
  assume res: "resolve_overload k tc cases argtys kws = Inr (Some c')"
  then obtain rs cs where r: "rate_cases tc argtys cases ([], []) = Inr (rs, cs)"
    and fb: "find_best k argtys (ordered_of rs cs) = Inr (Some c')"
    by (auto simp: resolve_overload_def split: if_splits sum.splits)
  from find_best_member[OF fb] have "c' \<in> snd ` set (zip rs cs)"
    by (simp add: ordered_of_props(2))
  then have "c' \<in> set cs" by (auto dest: set_zip_rightD)
  with rate_cases_survivors(1)[OF r]
  show "c' \<in> set cases" and "passes_filters tc argtys c'" by simp_all
qed

theorem candidate_filters_witness:
  "length [int32, int32] \<noteq> length (args (signature range_state32_type [int32] None))
   \<and> well_behaved stub_compat
   \<and> \<not> passes_filters stub_compat [int32, int32] (signature float32 [float32, float32] None)
   \<and> rate_cases stub_compat [int32, int32]
        (signature range_state32_type [int32] None #
           [signature float32 [float32, float32] None, signature int64 [int64, int64] None])
        ([], []) =
      rate_cases stub_compat [int32, int32]
        [signature float32 [float32, float32] None, signature int64 [int64, int64] None] ([], [])
   \<and> rate_cases stub_compat [int32, int32]
        (signature float32 [float32, float32] None # [signature int64 [int64, int64] None])
        ([], []) =
      rate_cases stub_compat [int32, int32] [signature int64 [int64, int64] None] ([], [])
   \<and> rate_cases stub_compat [int32, int32]
        [signature float32 [float32, float32] None, signature int64 [int64, int64] None] ([], []) =
      Inr ([(0, 0, 2)], [signature int64 [int64, int64] None])
   \<and> [signature int64 [int64, int64] None] =
      filter (passes_filters stub_compat [int32, int32])
        [signature float32 [float32, float32] None, signature int64 [int64, int64] None]
   \<and> resolve_overload (OpKey ''+'') stub_compat
        [signature float32 [float32, float32] None, signature int64 [int64, int64] None]
        [int32, int32] [] = Inr (Some (signature int64 [int64, int64] None))
   \<and> passes_filters stub_compat [int32, int32] (signature int64 [int64, int64] None)"
proof -
  let ?r = "signature range_state32_type [int32] None"
  let ?f = "signature float32 [float32, float32] None"
  let ?l = "signature int64 [int64, int64] None"
  have h1: "length [int32, int32] \<noteq> length (args ?r)" by (simp add: signature_def)
  have h2: "well_behaved stub_compat" by (simp add: well_behaved_def)
  have h3: "\<not> passes_filters stub_compat [int32, int32] ?f"
    by (simp add: passes_filters_def signature_def)
  have h4: "rate_cases stub_compat [int32, int32] [?f, ?l] ([], []) = Inr ([(0, 0, 2)], [?l])"
    by (simp add: signature_def Rating_init_def astuple_def)
  have h5: "resolve_overload (OpKey ''+'') stub_compat [?f, ?l] [int32, int32] [] = Inr (Some ?l)"
    by (simp add: resolve_overload_def ordered_of_def signature_def Rating_init_def astuple_def)
  note a = candidate_filters[of "[int32, int32]" ?r stub_compat "[?f, ?l]" "([], [])"
      "[(0, 0, 2)]" "[?l]" "OpKey ''+''" "[]" ?l]
  note b = candidate_filters[of "[int32, int32]" ?f stub_compat "[?l]" "([], [])"
      "[(0, 0, 2)]" "[?l]" "OpKey ''+''" "[]" ?l]
  from a h1 have c1: "rate_cases stub_compat [int32, int32] (?r # [?f, ?l]) ([], []) =
      rate_cases stub_compat [int32, int32] [?f, ?l] ([], [])" by blast
  from b h2 h3 have c2: "rate_cases stub_compat [int32, int32] (?f # [?l]) ([], []) =
      rate_cases stub_compat [int32, int32] [?l] ([], [])" by blast
  from a h4 have c3: "[?l] = filter (passes_filters stub_compat [int32, int32]) [?f, ?l]" by blast
  from a h5 have c4: "passes_filters stub_compat [int32, int32] ?l" by blast
  from h1 h2 h3 h4 h5 c1 c2 c3 c4 show ?thesis by blast
qed

subsection \<open>Equality of signatures\<close>

lemma set_add_present:
  "list_ex (\<lambda>m. Signature_hash hash m = Signature_hash hash s \<and> Signature_eq m s)
     (set_add hash members s)"
  by (auto simp: set_add_def list_ex_iff Signature_eq_def)

text \<open>
  C4.  Two signatures with the same \<open>args\<close> and the same \<open>recvr\<close> compare equal and
  have the same hash, whatever their return types; added to a set one after the other,
  the second one leaves the set as it is.  Changing the return type of either operand
  never changes the outcome of the comparison.
\<close>

theorem Signature_eq_ignores_return_type:
  assumes "args s1 = args s2" and "recvr s1 = recvr s2"
  shows "Signature_eq s1 s2 \<and> \<not> Signature_ne s1 s2
     \<and> Signature_hash hash s1 = Signature_hash hash s2
     \<and> set_add hash (set_add hash members s1) s2 = set_add hash members s1
     \<and> Signature_eq (a\<lparr>return_type := r\<rparr>) b = Signature_eq a b
     \<and> Signature_eq a (b\<lparr>return_type := r\<rparr>) = Signature_eq a b"
proof -
  have e: "Signature_eq s1 s2" using assms by (simp add: Signature_eq_def)
  have h: "Signature_hash hash s1 = Signature_hash hash s2"
    using assms by (simp add: Signature_hash_def)
  have "list_ex (\<lambda>m. Signature_hash hash m = Signature_hash hash s2 \<and> Signature_eq m s2)
          (set_add hash members s1)"
    using set_add_present[of hash s1 members] e h
    by (auto simp: list_ex_iff Signature_eq_def)
  then have s: "set_add hash (set_add hash members s1) s2 = set_add hash members s1"
    by (simp add: set_add_def[of hash "set_add hash members s1"])
  from e h s show ?thesis by (simp add: Signature_ne_def Signature_eq_def)
qed

theorem Signature_eq_ignores_return_type_witness:
  "args (signature int32 [int32, int32] None) = args (signature int64 [int32, int32] None)
   \<and> recvr (signature int32 [int32, int32] None) = recvr (signature int64 [int32, int32] None)
   \<and> signature int32 [int32, int32] None \<noteq> signature int64 [int32, int32] None
   \<and> Signature_eq (signature int32 [int32, int32] None) (signature int64 [int32, int32] None)
   \<and> Signature_hash (\<lambda>tys. int (length tys)) (signature int32 [int32, int32] None) =
       Signature_hash (\<lambda>tys. int (length tys)) (signature int64 [int32, int32] None)
   \<and> set_add (\<lambda>tys. int (length tys))
        (set_add (\<lambda>tys. int (length tys)) [] (signature int32 [int32, int32] None))
        (signature int64 [int32, int32] None) = [signature int32 [int32, int32] None]"
proof -
  let ?s1 = "signature int32 [int32, int32] None"
  let ?s2 = "signature int64 [int32, int32] None"
  have h1: "args ?s1 = args ?s2" by (simp add: signature_def)
  have h2: "recvr ?s1 = recvr ?s2" by (simp add: signature_def)
  have h3: "?s1 \<noteq> ?s2" by (simp add: signature_def)
  have h4: "set_add (\<lambda>tys. int (length tys)) [] ?s1 = [?s1]" by (simp add: set_add_def)
  from Signature_eq_ignores_return_type[OF h1 h2, of "\<lambda>tys. int (length tys)" "[]"] h1 h2 h3 h4
  show ?thesis by simp
qed

subsection \<open>Index normalisation\<close>

lemma intp_not_UniTuple: "\<not> is_UniTuple (intp mb)"
  by (simp add: intp_def)

lemma intp_not_slice: "intp mb \<noteq> slice2_type" "intp mb \<noteq> slice3_type"
  by (simp_all add: intp_def)

lemma normalize_index_range:
  "(\<exists>n. normalize_index mb idx = UniTuple (intp mb) n) \<or> normalize_index mb idx = slice2_type
   \<or> normalize_index mb idx = slice3_type \<or> normalize_index mb idx = intp mb"
  by (simp add: normalize_index_def)

lemma normalize_index_UniTuple: "normalize_index mb (UniTuple d n) = UniTuple (intp mb) n"
  by (simp add: normalize_index_def)

lemma normalize_index_slice:
  "normalize_index mb slice2_type = slice2_type" "normalize_index mb slice3_type = slice3_type"
  by (simp_all add: normalize_index_def)

lemma normalize_index_intp: "normalize_index mb (intp mb) = intp mb"
  by (simp add: normalize_index_def intp_not_UniTuple intp_not_slice)

text \<open>
  C9.  Index normalisation is idempotent: normalising a normalised index changes
  nothing.  It maps a uniform tuple of any element type and of length \<open>n\<close> to the
  uniform tuple of \<open>n\<close> platform integers, the two slice types to themselves, and
  every other type to the platform integer.
\<close>

theorem normalize_index_idempotent:
  "normalize_index mb (normalize_index mb idx) = normalize_index mb idx
   \<and> normalize_index mb idx =
       (case idx of UniTuple d n \<Rightarrow> UniTuple (intp mb) n
        | slice2_type \<Rightarrow> slice2_type
        | slice3_type \<Rightarrow> slice3_type
        | _ \<Rightarrow> intp mb)"
proof
  from normalize_index_range[of mb idx] consider
      n where "normalize_index mb idx = UniTuple (intp mb) n"
    | "normalize_index mb idx = slice2_type"
    | "normalize_index mb idx = slice3_type"
    | "normalize_index mb idx = intp mb" by blast
  then show "normalize_index mb (normalize_index mb idx) = normalize_index mb idx"
  proof cases
    case 1
    then show ?thesis by (simp add: normalize_index_UniTuple)
  next
    case 2
    then show ?thesis by (simp add: normalize_index_slice)
  next
    case 3
    then show ?thesis by (simp add: normalize_index_slice)
  next
    case 4
    then show ?thesis by (simp add: normalize_index_intp)
  qed
  show "normalize_index mb idx =
       (case idx of UniTuple d n \<Rightarrow> UniTuple (intp mb) n
        | slice2_type \<Rightarrow> slice2_type
        | slice3_type \<Rightarrow> slice3_type
        | _ \<Rightarrow> intp mb)"
    by (cases idx) (simp_all add: normalize_index_def)
qed

subsection \<open>The unreachable branch of the array getitem\<close>

lemma GetItemArray_generic_pair:
  "\<exists>r. GetItemArray_generic mb [ary, idx] [] = Inr r"
proof (cases "is_Array ary")
  case False
  then show ?thesis by (simp add: GetItemArray_generic_def Let_def)
next
  case True
  from normalize_index_range[of mb idx] consider
      n where "normalize_index mb idx = UniTuple (intp mb) n"
    | "normalize_index mb idx = slice2_type"
    | "normalize_index mb idx = slice3_type"
    | "normalize_index mb idx = intp mb" by blast
  then show ?thesis
  proof cases
    case 1
    with True show ?thesis by (simp add: GetItemArray_generic_def Let_def)
  next
    case 2
    with True show ?thesis by (simp add: GetItemArray_generic_def Let_def)
  next
    case 3
    with True show ?thesis by (simp add: GetItemArray_generic_def Let_def)
  next
    case 4
    with True show ?thesis
      by (simp add: GetItemArray_generic_def Let_def intp_not_UniTuple intp_not_slice)
  qed
qed

lemma GetItemArray_generic_kws:
  "kws \<noteq> [] \<Longrightarrow> GetItemArray_generic mb argtys kws = Inl AssertionError"
  by (simp add: GetItemArray_generic_def)

lemma length_two: "length xs = 2 \<Longrightarrow> \<exists>a b. xs = [a, b]"
  by (cases xs; cases "tl xs") auto

lemma GetItemArray_generic_unpack:
  assumes "length argtys \<noteq> 2"
  shows "GetItemArray_generic mb argtys [] = Inl ValueError"
proof (cases argtys)
  case Nil
  then show ?thesis by (simp add: GetItemArray_generic_def)
next
  case (Cons a as)
  note c1 = this
  show ?thesis
  proof (cases as)
    case Nil
    with c1 show ?thesis by (simp add: GetItemArray_generic_def)
  next
    case (Cons b bs)
    with c1 assms obtain c cs where "bs = c # cs" by (cases bs) auto
    with c1 Cons show ?thesis by (simp add: GetItemArray_generic_def)
  qed
qed

lemma GetItemArray_generic_errors:
  assumes "GetItemArray_generic mb argtys kws = Inl e"
  shows "e = AssertionError \<or> e = ValueError"
proof (cases "kws = []")
  case False
  with assms show ?thesis by (simp add: GetItemArray_generic_kws)
next
  case True
  show ?thesis
  proof (cases "length argtys = 2")
    case False
    with assms True show ?thesis by (simp add: GetItemArray_generic_unpack)
  next
    case len: True
    then obtain ary idx where "argtys = [ary, idx]" using length_two by blast
    with assms True GetItemArray_generic_pair[of mb ary idx] show ?thesis by auto
  qed
qed

text \<open>
  C10.  The last branch of \<^verbatim>\<open>GetItemArray.generic\<close>, which raises the "unreachable"
  exception, is never taken: whatever the arguments are, the result is not that
  exception.  Called with an operand and an index and no keyword arguments, it returns
  a signature or nothing.  The normalised index is a uniform tuple of platform
  integers, one of the two slice types or the platform integer, and each of these is
  handled by an earlier branch.
\<close>

theorem GetItemArray_generic_never_unreachable:
  "GetItemArray_generic mb argtys kws \<noteq> Inl (Unreachable v)
   \<and> (\<exists>r. GetItemArray_generic mb [ary, idx] [] = Inr r)
   \<and> ((\<exists>n. normalize_index mb idx = UniTuple (intp mb) n)
       \<or> normalize_index mb idx = slice2_type
       \<or> normalize_index mb idx = slice3_type \<or> normalize_index mb idx = intp mb)"
  using GetItemArray_generic_errors[of mb argtys kws "Unreachable v"]
    GetItemArray_generic_pair[of mb ary idx] normalize_index_range[of mb idx]
  by blast

subsection \<open>Array getitem with a uniform tuple index\<close>

lemma rate_args_compatible:
  assumes "well_behaved tc"
    and "list_all (\<lambda>(actual, formal). tc actual formal \<noteq> None) ps"
  shows "\<exists>r. rate_args tc ps rate = Inr (Some r)"
proof -
  from rate_args_well_behaved[OF assms(1)] obtain ro where ro: "rate_args tc ps rate = Inr ro"
    by blast
  show ?thesis
  proof (cases ro)
    case None
    with ro rate_args_None[of tc ps rate] assms(2) show ?thesis by simp
  next
    case (Some r)
    with ro show ?thesis by simp
  qed
qed

lemma resolve_overload_single:
  assumes "well_behaved tc" and "passes_filters tc argtys sig"
  shows "resolve_overload k tc [sig] argtys [] = Inr (Some sig)"
proof -
  from assms(2) have len: "length argtys = length (args sig)"
    and ok: "list_all (\<lambda>(actual, formal). tc actual formal \<noteq> None) (zip argtys (args sig))"
    by (simp_all add: passes_filters_def)
  from rate_args_compatible[OF assms(1) ok] obtain r
    where "rate_args tc (zip argtys (args sig)) Rating_init = Inr (Some r)" by blast
  with len show ?thesis by (simp add: resolve_overload_def ordered_of_def)
qed

lemma resolve_overload_no_args:
  "args sig = [] \<Longrightarrow> resolve_overload k tc [sig] [] [] = Inr (Some sig)"
  by (simp add: resolve_overload_def ordered_of_def)

lemma GetItemArray_generic_UniTuple:
  "GetItemArray_generic mb [Array d n l, UniTuple e m] [] =
     (if m = n then Inr (Some (signature d [Array d n l, UniTuple (intp mb) n] None))
      else Inr None)"
  by (simp add: GetItemArray_generic_def Let_def normalize_index_UniTuple)

text \<open>
  C5.  For an array of rank \<open>n\<close> and a uniform tuple index of length \<open>m\<close>: if
  \<open>m\<close> differs from \<open>n\<close>, \<^verbatim>\<open>GetItemArray.generic\<close> yields no signature, and so does the
  template applied through the resolver, whatever the oracle is.  If \<open>m\<close> is \<open>n\<close>,
  it yields the signature whose return type is the dtype of the array and whose index
  formal is the normalised index, the uniform tuple of \<open>n\<close> platform integers; the
  resolver returns this signature when the oracle keeps to its verdicts and deems both
  actual/formal pairs compatible.
\<close>

theorem GetItemArray_UniTuple_arity:
  "GetItemArray_generic mb [Array d n l, UniTuple e m] [] =
     (if m = n then Inr (Some (signature d [Array d n l, UniTuple (intp mb) n] None))
      else Inr None)
   \<and> normalize_index mb (UniTuple e m) = UniTuple (intp mb) m
   \<and> (m \<noteq> n \<longrightarrow>
        AbstractTemplate_apply k tc (GetItemArray_generic mb) [Array d n l, UniTuple e m] [] =
          Inr None)
   \<and> (m = n \<and> well_behaved tc \<and> tc (Array d n l) (Array d n l) \<noteq> None \<and>
        tc (UniTuple e m) (UniTuple (intp mb) n) \<noteq> None \<longrightarrow>
        AbstractTemplate_apply k tc (GetItemArray_generic mb) [Array d n l, UniTuple e m] [] =
          Inr (Some (signature d [Array d n l, UniTuple (intp mb) n] None)))"
proof (intro conjI impI)
  show "GetItemArray_generic mb [Array d n l, UniTuple e m] [] =
     (if m = n then Inr (Some (signature d [Array d n l, UniTuple (intp mb) n] None))
      else Inr None)"
    by (rule GetItemArray_generic_UniTuple)
  show "normalize_index mb (UniTuple e m) = UniTuple (intp mb) m"
    by (rule normalize_index_UniTuple)
next
  assume "m \<noteq> n"
  then show "AbstractTemplate_apply k tc (GetItemArray_generic mb)
      [Array d n l, UniTuple e m] [] = Inr None"
    by (simp add: AbstractTemplate_apply_def GetItemArray_generic_UniTuple)
next
  let ?sig = "signature d [Array d n l, UniTuple (intp mb) n] None"
  assume a: "m = n \<and> well_behaved tc \<and> tc (Array d n l) (Array d n l) \<noteq> None \<and>
        tc (UniTuple e m) (UniTuple (intp mb) n) \<noteq> None"
  then have "passes_filters tc [Array d n l, UniTuple e m] ?sig"
    by (auto simp: passes_filters_def signature_def)
  with a have "resolve_overload k tc [?sig] [Array d n l, UniTuple e m] [] = Inr (Some ?sig)"
    by (simp add: resolve_overload_single)
  with a show "AbstractTemplate_apply k tc (GetItemArray_generic mb)
      [Array d n l, UniTuple e m] [] = Inr (Some ?sig)"
    by (simp add: AbstractTemplate_apply_def GetItemArray_generic_UniTuple select_def)
qed

theorem GetItemArray_UniTuple_arity_witness:
  "(2::nat) = 2 \<and> well_behaved stub_compat
   \<and> stub_compat (Array float32 2 ''C'') (Array float32 2 ''C'') \<noteq> None
   \<and> stub_compat (UniTuple int64 2) (UniTuple (intp 64) 2) \<noteq> None
   \<and> (3::nat) \<noteq> 2
   \<and> GetItemArray_generic 64 [Array float32 2 ''C'', UniTuple int64 2] [] =
       Inr (Some (signature float32 [Array float32 2 ''C'', UniTuple (intp 64) 2] None))
   \<and> AbstractTemplate_apply (OpKey ''getitem'') stub_compat (GetItemArray_generic 64)
        [Array float32 2 ''C'', UniTuple int64 2] [] =
       Inr (Some (signature float32 [Array float32 2 ''C'', UniTuple (intp 64) 2] None))
   \<and> GetItemArray_generic 64 [Array float32 2 ''C'', UniTuple int64 3] [] = Inr None
   \<and> AbstractTemplate_apply (OpKey ''getitem'') stub_compat (GetItemArray_generic 64)
        [Array float32 2 ''C'', UniTuple int64 3] [] = Inr None"
proof -
  have h1: "well_behaved stub_compat" by (simp add: well_behaved_def)
  have h2: "stub_compat (Array float32 2 ''C'') (Array float32 2 ''C'') \<noteq> None" by simp
  have h3: "stub_compat (UniTuple int64 2) (UniTuple (intp 64) 2) \<noteq> None"
    by (simp add: intp_def)
  have h4: "intp 64 = int64" by (simp add: intp_def)
  note a = GetItemArray_UniTuple_arity[of 64 float32 2 "''C''" int64 2
      "OpKey ''getitem''" stub_compat]
  note b = GetItemArray_UniTuple_arity[of 64 float32 2 "''C''" int64 3
      "OpKey ''getitem''" stub_compat]
  from a h1 h2 h3 h4 b show ?thesis by simp
qed

subsection \<open>Binary ufuncs\<close>

text \<open>
  C6.  For three array types \<open>vx\<close>, \<open>wy\<close> and \<open>out\<close>, the generic of a binary ufunc
  yields no signature exactly when the dtype of \<open>vx\<close> differs from the dtype of \<open>wy\<close>
  and from the dtype of \<open>out\<close>.  In every other case, also when the dtypes of \<open>vx\<close>
  and \<open>out\<close> agree and that of \<open>wy\<close> differs, it returns
  \<^verbatim>\<open>signature(out, vx, wy, out)\<close>, whose return type is \<open>out\<close>.
\<close>

theorem Numpy_binary_ufunc_guard:
  assumes "is_Array vx" and "is_Array wy" and "is_Array out"
  shows "Numpy_binary_ufunc_generic [vx, wy, out] [] =
       (if dtype vx \<noteq> dtype wy \<and> dtype vx \<noteq> dtype out then Inr None
        else Inr (Some (signature out [vx, wy, out] None)))
     \<and> (Numpy_binary_ufunc_generic [vx, wy, out] [] = Inr None \<longleftrightarrow>
          dtype vx \<noteq> dtype wy \<and> dtype vx \<noteq> dtype out)
     \<and> (dtype vx = dtype out \<longrightarrow>
          Numpy_binary_ufunc_generic [vx, wy, out] [] =
            Inr (Some (signature out [vx, wy, out] None)))
     \<and> return_type (signature out [vx, wy, out] None) = out"
  using assms by (simp add: Numpy_binary_ufunc_generic_def signature_def)

theorem Numpy_binary_ufunc_guard_witness:
  "is_Array (Array float32 1 ''C'') \<and> is_Array (Array int32 1 ''C'')
   \<and> dtype (Array float32 1 ''C'') = dtype (Array float32 1 ''C'')
   \<and> dtype (Array float32 1 ''C'') \<noteq> dtype (Array int32 1 ''C'')
   \<and> Numpy_binary_ufunc_generic
        [Array float32 1 ''C'', Array int32 1 ''C'', Array float32 1 ''C''] [] =
      Inr (Some (signature (Array float32 1 ''C'')
        [Array float32 1 ''C'', Array int32 1 ''C'', Array float32 1 ''C''] None))
   \<and> Numpy_binary_ufunc_generic
        [Array float32 1 ''C'', Array int32 1 ''C'', Array int32 1 ''C''] [] = Inr None"
proof -
  have h1: "is_Array (Array float32 1 ''C'')" by simp
  have h2: "is_Array (Array int32 1 ''C'')" by simp
  from Numpy_binary_ufunc_guard[OF h1 h2 h1] Numpy_binary_ufunc_guard[OF h1 h2 h2] h1 h2
  show ?thesis by simp
qed

subsection \<open>The cases of range\<close>

text \<open>
  C7.  The case list of the \<^verbatim>\<open>Range\<close> template consists of the cases returning
  \<^verbatim>\<open>range_state32_type\<close>, of arities 1 and 3 over \<^verbatim>\<open>int32\<close>, and the cases
  returning \<^verbatim>\<open>range_state64_type\<close>, of arities 1, 2 and 3 over \<^verbatim>\<open>int64\<close>, and of
  nothing else.  No case of two arguments returns the 32-bit state or takes an
  \<^verbatim>\<open>int32\<close>; under an oracle that accepts exact matches only, a call with two
  \<^verbatim>\<open>int32\<close> arguments finds no case.
\<close>

theorem Range_cases_arities:
  "map args (filter (\<lambda>s. return_type s = range_state32_type) Range_cases) =
     [replicate 1 int32, replicate 3 int32]
   \<and> map args (filter (\<lambda>s. return_type s = range_state64_type) Range_cases) =
     [replicate 1 int64, replicate 2 int64, replicate 3 int64]
   \<and> filter (\<lambda>s. return_type s = range_state32_type) Range_cases @
     filter (\<lambda>s. return_type s = range_state64_type) Range_cases = Range_cases
   \<and> map recvr Range_cases = replicate 5 None
   \<and> filter (\<lambda>s. length (args s) = 2 \<and>
        (return_type s = range_state32_type \<or> int32 \<in> set (args s))) Range_cases = []
   \<and> ConcreteTemplate_apply (TypeKey (Opaque ''range_type''))
        (\<lambda>actual formal. if actual = formal then Some ''exact'' else None)
        Range_cases [int32, int32] [] = Inr None"
  by (simp add: Range_cases_def signature_def numeral_eq_Suc ConcreteTemplate_apply_def
      select_def resolve_overload_def ordered_of_def Rating_init_def astuple_def)

subsection \<open>Array.flatten\<close>

text \<open>
  C8.  For an array type, the attribute \<^verbatim>\<open>flatten\<close> resolves to the method wrapper of
  \<^verbatim>\<open>Array_flatten\<close> bound to the array.  Applied to no arguments, the bound template
  yields a signature if and only if the layout of the receiver is \<^verbatim>\<open>'C'\<close>; its return
  type is then the one-dimensional array of the same dtype in layout \<^verbatim>\<open>'C'\<close> and its
  receiver is the array.  For every other layout it yields no signature.
\<close>

theorem Array_flatten_layout:
  "ArrayAttribute_resolve mb (Array d n l) ''flatten'' = Inr (Method ''Array_flatten'' (Array d n l))
   \<and> this (Method ''Array_flatten'' (Array d n l)) = Array d n l
   \<and> Array_flatten_generic (Array d n l) [] [] =
       (if l = ''C'' then Inr (Some (signature (Array d 1 ''C'') [] (Some (Array d n l))))
        else Inr None)
   \<and> AbstractTemplate_apply k tc (Array_flatten_generic (Array d n l)) [] [] =
       (if l = ''C'' then Inr (Some (signature (Array d 1 ''C'') [] (Some (Array d n l))))
        else Inr None)
   \<and> ((\<exists>s. AbstractTemplate_apply k tc (Array_flatten_generic (Array d n l)) [] [] =
              Inr (Some s) \<and> return_type s = Array d 1 ''C'' \<and> recvr s = Some (Array d n l))
        \<longleftrightarrow> l = ''C'')"
proof -
  let ?sig = "signature (Array d 1 ''C'') [] (Some (Array d n l))"
  have r: "ArrayAttribute_resolve mb (Array d n l) ''flatten'' =
      Inr (Method ''Array_flatten'' (Array d n l))"
    by (simp add: ArrayAttribute_resolve_def resolve_flatten_def)
  have g: "Array_flatten_generic (Array d n l) [] [] =
       (if l = ''C'' then Inr (Some ?sig) else Inr None)"
    by (simp add: Array_flatten_generic_def copy_def)
  have ro: "resolve_overload k tc [?sig] [] [] = Inr (Some ?sig)"
    by (rule resolve_overload_no_args) (simp add: signature_def)
  have a: "AbstractTemplate_apply k tc (Array_flatten_generic (Array d n l)) [] [] =
       (if l = ''C'' then Inr (Some ?sig) else Inr None)"
  proof (cases "l = ''C''")
    case True
    with g have "Array_flatten_generic (Array d n l) [] [] = Inr (Some ?sig)" by simp
    with ro True show ?thesis by (simp add: AbstractTemplate_apply_def select_def)
  next
    case False
    with g show ?thesis by (simp add: AbstractTemplate_apply_def)
  qed
  have s: "return_type ?sig = Array d 1 ''C'' \<and> recvr ?sig = Some (Array d n l)"
    by (simp add: signature_def)
  from r g a s show ?thesis by auto
qed

theorem Array_flatten_layout_witness:
  "ArrayAttribute_resolve 64 (Array int32 3 ''C'') ''flatten'' =
     Inr (Method ''Array_flatten'' (Array int32 3 ''C''))
   \<and> AbstractTemplate_apply (OpKey ''array.flatten'') stub_compat
       (Array_flatten_generic (this (Method ''Array_flatten'' (Array int32 3 ''C''))))  [] [] =
       Inr (Some (signature (Array int32 1 ''C'') [] (Some (Array int32 3 ''C''))))
   \<and> AbstractTemplate_apply (OpKey ''array.flatten'') stub_compat
       (Array_flatten_generic (this (Method ''Array_flatten'' (Array int32 3 ''F''))))  [] [] =
       Inr None"
  using Array_flatten_layout[of 64 int32 3 "''C''" "OpKey ''array.flatten''" stub_compat]
    Array_flatten_layout[of 64 int32 3 "''F''" "OpKey ''array.flatten''" stub_compat]
  by simp

end
